theory Spec2Isabelle
  imports Main "HOL-Library.Word"
begin

section \<open>Data model of the chained hash table\<close>

text \<open>
  Keys and values reach the table as \<^verbatim>\<open>const void*\<close>: the table stores and compares
  addresses and never looks at the bytes behind them. An address is a natural number,
  \<open>NULL\<close> is address 0.
\<close>

type_synonym ptr = nat

abbreviation NULL :: ptr where
  "NULL \<equiv> 0"

text \<open>
  \<^verbatim>\<open>Record\<close> (record.h) is used by the table through its two pointer fields
  \<^verbatim>\<open>r->key\<close> and \<^verbatim>\<open>r->value\<close>.
\<close>

record Record =
  key :: ptr
  "value" :: ptr

text \<open>
  A \<^verbatim>\<open>LinkedList*\<close> is either NULL (\<open>None\<close>) or addresses a list whose nodes, read
  from \<^verbatim>\<open>first\<close> along \<^verbatim>\<open>next\<close>, carry one \<^verbatim>\<open>Record\<close> each (\<^verbatim>\<open>(Record*)node->data\<close>).
  Every bucket owns its list object; no two buckets share one.
\<close>

type_synonym chain = "Record list"

text \<open>
  \<^verbatim>\<open>HashTable\<close> as declared in chained_table.h. \<open>N\<close> is a C \<^verbatim>\<open>int\<close>; the hash value and
  the two sizes are \<^verbatim>\<open>size_t\<close>, taken as 64-bit words. \<open>buckets\<close> lists the slots of the
  allocated bucket array.
\<close>

record HashTable =
  N :: int
  buckets :: "chain option list"
  hash_function :: "ptr \<Rightarrow> 64 word"
  compare :: "ptr \<Rightarrow> ptr \<Rightarrow> int"
  record_formatter :: "ptr \<Rightarrow> string"
  key_size :: "64 word"
  value_size :: "64 word"

text \<open>
  The ways in which a call can leave defined behaviour. They are results of the model,
  not results of the C functions, which only return \<^verbatim>\<open>bool\<close> or a pointer. A fault
  says that the behaviour of the call is undefined from that point on: the compiled
  program may stop there, or may go on with corrupted memory. The model follows it no
  further and gives no resulting table.
\<close>

datatype fault =
    UninitialisedPointer
  | NullDereference
  | DivisionByZero
  | OutOfBounds

section \<open>The linked list the table is built on\<close>

text \<open>
  Modelled from the spec: \<^verbatim>\<open>add_beginning\<close> of linked_list, which is not part of the
  sources at hand. The spec has \<^verbatim>\<open>insert\<close> put the new entry "at the head" of the
  bucket's chain, the chain growing by 1. The third argument of the call, a byte size,
  has no counterpart in the spec and is left out. The spec is silent on a NULL list;
  linking at the head has to write \<^verbatim>\<open>list->first\<close>, which is a NULL dereference there.
\<close>

definition add_beginning :: "chain option \<Rightarrow> Record \<Rightarrow> fault + chain option" where
  "add_beginning list data =
     (case list of
        None \<Rightarrow> Inl NullDereference
      | Some c \<Rightarrow> Inr (Some (data # c)))"

text \<open>
  Modelled from the spec: \<^verbatim>\<open>remove_n\<close> of linked_list, which is not part of the
  sources at hand. The spec has \<^verbatim>\<open>remove\<close> unlink the located entry from its chain,
  the chain shrinking by 1; the caller passes the number of nodes in front of that
  entry, so \<open>n\<close> counts from 0 at the first node. An \<open>n\<close> outside the chain, which the
  table never passes, leaves the chain as it is.
\<close>

definition remove_n :: "chain option \<Rightarrow> int \<Rightarrow> fault + chain option" where
  "remove_n list n =
     (case list of
        None \<Rightarrow> Inl NullDereference
      | Some c \<Rightarrow>
          if 0 \<le> n \<and> nat n < length c
          then Inr (Some (take (nat n) c @ drop (Suc (nat n)) c))
          else Inr (Some c))"

section \<open>Table operations\<close>

text \<open>
  \<^verbatim>\<open>create_table\<close>: stores its arguments and allocates \<open>N\<close> bucket slots, each set to
  NULL. There is no check on \<open>N\<close> and no failure return. The loop runs for \<open>0 \<le> i < N\<close>,
  so for \<open>N \<le> 0\<close> no slot is ever written; the array then has no usable slot. Allocation
  itself is taken to succeed.
\<close>

definition create_table ::
  "int \<Rightarrow> (ptr \<Rightarrow> 64 word) \<Rightarrow> (ptr \<Rightarrow> ptr \<Rightarrow> int) \<Rightarrow> (ptr \<Rightarrow> string) \<Rightarrow> 64 word \<Rightarrow> 64 word
     \<Rightarrow> HashTable option" where
  "create_table n hash_fn cmp fmt ksize vsize =
     Some \<lparr> N = n,
            buckets = replicate (nat n) None,
            hash_function = hash_fn,
            compare = cmp,
            record_formatter = fmt,
            key_size = ksize,
            value_size = vsize \<rparr>"

text \<open>
  \<^verbatim>\<open>table->hash_function(key) % table->N\<close>: the left operand is \<^verbatim>\<open>size_t\<close>, so \<open>N\<close> is
  converted to \<^verbatim>\<open>size_t\<close> before the remainder is taken. Division by zero and an index
  outside the bucket array are faults.
\<close>

definition bucket_index :: "HashTable \<Rightarrow> ptr \<Rightarrow> fault + nat" where
  "bucket_index t k =
     (let n = (word_of_int (N t) :: 64 word) in
      if n = 0 then Inl DivisionByZero
      else
        (let i = unat (hash_function t k mod n) in
         if i < length (buckets t) then Inr i else Inl OutOfBounds))"

text \<open>
  \<^verbatim>\<open>insert\<close>. The local \<^verbatim>\<open>Record* r\<close> is declared without an initialiser and is never
  assigned: it holds no address of a \<^verbatim>\<open>Record\<close>, which is \<open>None\<close> here. The two stores
  \<^verbatim>\<open>r->key = ...\<close> and \<^verbatim>\<open>r->value = ...\<close> go through that indeterminate pointer, so for
  non-null arguments every call is undefined behaviour at that point, whatever the
  stack slot happens to hold (an unmapped address, or the address of a live object
  that the stores then overwrite). The lines behind the stores are kept as the source
  has them; no defined execution reaches them.
\<close>

definition insert_entry ::
  "HashTable option \<Rightarrow> ptr \<Rightarrow> ptr \<Rightarrow> fault + bool \<times> HashTable option" where
  "insert_entry table k v =
     (case table of
        None \<Rightarrow> Inr (False, None)
      | Some t \<Rightarrow>
          if k = NULL \<or> v = NULL then Inr (False, Some t)
          else
            (let r = (None :: Record option) in
             case r of
               None \<Rightarrow> Inl UninitialisedPointer
             | Some r0 \<Rightarrow>
                 (let r1 = r0\<lparr>key := k, value := v\<rparr> in
                  case bucket_index t k of
                    Inl f \<Rightarrow> Inl f
                  | Inr i \<Rightarrow>
                      (case add_beginning (buckets t ! i) r1 of
                         Inl f \<Rightarrow> Inl f
                       | Inr l \<Rightarrow> Inr (True, Some (t\<lparr>buckets := (buckets t)[i := l]\<rparr>))))))"

text \<open>
  The scan loop of \<^verbatim>\<open>search\<close>. \<open>node\<close> is the chain from the cursor on. The body returns
  on a match and otherwise does nothing: the cursor is not moved, and the next
  iteration sees the same node. \<open>None\<close> is "does not return".
\<close>

partial_function (option) search_loop ::
  "(ptr \<Rightarrow> ptr \<Rightarrow> int) \<Rightarrow> ptr \<Rightarrow> chain \<Rightarrow> ptr option" where
  "search_loop cmp k node =
     (case node of
        [] \<Rightarrow> Some NULL
      | r # rest \<Rightarrow>
          if cmp k (key r) = 0 then Some (value r)
          else search_loop cmp k node)"

definition search :: "HashTable option \<Rightarrow> ptr \<Rightarrow> (fault + ptr) option" where
  "search table k =
     (case table of
        None \<Rightarrow> Some (Inr NULL)
      | Some t \<Rightarrow>
          if k = NULL then Some (Inr NULL)
          else
            (case bucket_index t k of
               Inl f \<Rightarrow> Some (Inl f)
             | Inr i \<Rightarrow>
                 (case buckets t ! i of
                    None \<Rightarrow> Some (Inl NullDereference)
                  | Some c \<Rightarrow> map_option Inr (search_loop (compare t) k c))))"

text \<open>
  The scan loop of \<^verbatim>\<open>replace\<close>: on a match the value pointer of that record is
  overwritten in place and the loop returns true; otherwise the cursor moves on.
\<close>

fun replace_loop :: "(ptr \<Rightarrow> ptr \<Rightarrow> int) \<Rightarrow> ptr \<Rightarrow> ptr \<Rightarrow> chain \<Rightarrow> bool \<times> chain" where
  "replace_loop cmp k nv [] = (False, [])"
| "replace_loop cmp k nv (r # rest) =
     (if cmp k (key r) = 0 then (True, r\<lparr>value := nv\<rparr> # rest)
      else (let (found, rest') = replace_loop cmp k nv rest in (found, r # rest')))"

definition replace ::
  "HashTable option \<Rightarrow> ptr \<Rightarrow> ptr \<Rightarrow> fault + bool \<times> HashTable option" where
  "replace table k nv =
     (case table of
        None \<Rightarrow> Inr (False, None)
      | Some t \<Rightarrow>
          if k = NULL \<or> nv = NULL then Inr (False, Some t)
          else
            (case bucket_index t k of
               Inl f \<Rightarrow> Inl f
             | Inr i \<Rightarrow>
                 (case buckets t ! i of
                    None \<Rightarrow> Inl NullDereference
                  | Some c \<Rightarrow>
                      (let (found, c') = replace_loop (compare t) k nv c in
                       Inr (found, Some (t\<lparr>buckets := (buckets t)[i := Some c']\<rparr>))))))"

text \<open>
  The scan loop of \<^verbatim>\<open>remove\<close>: it stops at the first match or at the end of the
  chain and leaves the cursor and the number of nodes passed.
\<close>

fun remove_loop :: "(ptr \<Rightarrow> ptr \<Rightarrow> int) \<Rightarrow> ptr \<Rightarrow> chain \<Rightarrow> int \<Rightarrow> chain \<times> int" where
  "remove_loop cmp k [] count = ([], count)"
| "remove_loop cmp k (r # rest) count =
     (if cmp k (key r) = 0 then (r # rest, count)
      else remove_loop cmp k rest (count + 1))"

definition remove :: "HashTable option \<Rightarrow> ptr \<Rightarrow> fault + bool \<times> HashTable option" where
  "remove table k =
     (case table of
        None \<Rightarrow> Inr (False, None)
      | Some t \<Rightarrow>
          if k = NULL then Inr (False, Some t)
          else
            (case bucket_index t k of
               Inl f \<Rightarrow> Inl f
             | Inr i \<Rightarrow>
                 (case buckets t ! i of
                    None \<Rightarrow> Inl NullDereference
                  | Some c \<Rightarrow>
                      (let (node, count) = remove_loop (compare t) k c 0 in
                       if node \<noteq> [] then
                         (case remove_n (buckets t ! i) count of
                            Inl f \<Rightarrow> Inl f
                          | Inr l \<Rightarrow> Inr (True, Some (t\<lparr>buckets := (buckets t)[i := l]\<rparr>)))
                       else Inr (False, Some t)))))"

section \<open>Properties of a table state\<close>

text \<open>
  Every entry of every chain sits in the bucket that the table computes for its key.
\<close>

definition entries_in_place :: "HashTable \<Rightarrow> bool" where
  "entries_in_place t =
     list_all
       (\<lambda>i. case buckets t ! i of
              None \<Rightarrow> True
            | Some c \<Rightarrow> list_all (\<lambda>e. bucket_index t (key e) = Inr i) c)
       [0..<length (buckets t)]"

section \<open>Example tables\<close>

text \<open>
  The scenario of the specification: four buckets, keys hashed by their residue
  modulo 4 and compared by subtraction. Keys and values are taken at the addresses
  5, 9, 13 and 101, 102, 103.
\<close>

definition example_hash :: "ptr \<Rightarrow> 64 word" where
  "example_hash p = word_of_nat (p mod 4)"

definition example_compare :: "ptr \<Rightarrow> ptr \<Rightarrow> int" where
  "example_compare a b = int a - int b"

definition example_formatter :: "ptr \<Rightarrow> string" where
  "example_formatter p = ''record''"

text \<open>
  A table of that configuration whose four buckets address lists, the list of
  bucket 1 holding the chain \<open>c\<close> and the others no node.
\<close>

definition scenario_table :: "chain \<Rightarrow> HashTable" where
  "scenario_table c =
     \<lparr> N = 4,
       buckets = [Some [], Some c, Some [], Some []],
       hash_function = example_hash,
       compare = example_compare,
       record_formatter = example_formatter,
       key_size = 4,
       value_size = 4 \<rparr>"

section \<open>The scan loops\<close>

text \<open>
  If the loop of \<^verbatim>\<open>search\<close> returns at all, the cursor was at the end of the chain or
  on a matching node when the loop was entered.
\<close>

lemma search_loop_returns:
  assumes "search_loop cmp k node = Some y"
  shows "node = [] \<or> cmp k (key (hd node)) = 0"
proof (rule search_loop.raw_induct
    [where P = "\<lambda>cmp k node y. node = [] \<or> cmp k (key (hd node)) = 0", OF _ assms])
  fix f cmp k node y
  assume IH: "\<And>cmp k node y. f cmp k node = Some y \<Longrightarrow> node = [] \<or> cmp k (key (hd node)) = 0"
    and step: "(case node of [] \<Rightarrow> Some NULL
                | r # rest \<Rightarrow> if cmp k (key r) = 0 then Some (value r) else f cmp k node) = Some y"
  show "node = [] \<or> cmp k (key (hd node)) = 0"
  proof (cases node)
    case Nil
    then show ?thesis by simp
  next
    case (Cons r rest)
    show ?thesis
    proof (cases "cmp k (key r) = 0")
      case True
      with Cons show ?thesis by simp
    next
      case False
      with Cons step have "f cmp k node = Some y" by simp
      then show ?thesis by (rule IH)
    qed
  qed
qed

lemma search_loop_stuck:
  assumes "cmp k (key r) \<noteq> 0"
  shows "search_loop cmp k (r # rest) = None"
proof (cases "search_loop cmp k (r # rest)")
  case None
  then show ?thesis .
next
  case (Some y)
  from search_loop_returns [OF Some] assms show ?thesis by simp
qed

lemma search_loop_Nil: "search_loop cmp k [] = Some NULL"
  by (simp add: search_loop.simps)

lemma search_loop_match:
  "cmp k (key r) = 0 \<Longrightarrow> search_loop cmp k (r # rest) = Some (value r)"
  by (simp add: search_loop.simps)

text \<open>
  \<^verbatim>\<open>replace\<close> keeps the nodes of the chain and their keys; it reports a match exactly
  when some key of the chain compares equal.
\<close>

lemma replace_loop_length: "length (snd (replace_loop cmp k nv c)) = length c"
  by (induction c) (auto split: prod.splits)

lemma replace_loop_keys: "map key (snd (replace_loop cmp k nv c)) = map key c"
  by (induction c) (auto split: prod.splits)

lemma replace_loop_found:
  "fst (replace_loop cmp k nv c) \<longleftrightarrow> (\<exists>e \<in> set c. cmp k (key e) = 0)"
  by (induction c) (auto split: prod.splits)

lemma replace_loop_not_found:
  "\<not> fst (replace_loop cmp k nv c) \<Longrightarrow> snd (replace_loop cmp k nv c) = c"
  by (induction c) (auto split: prod.splits)

text \<open>
  \<^verbatim>\<open>remove\<close> stops on the first node whose key compares equal, having counted the
  nodes in front of it.
\<close>

lemma remove_loop_count:
  "remove_loop cmp k c n = (node, m) \<Longrightarrow>
     n \<le> m \<and> nat (m - n) + length node = length c \<and> node = drop (nat (m - n)) c"
proof (induction c arbitrary: n)
  case Nil
  then show ?case by simp
next
  case (Cons r rest)
  show ?case
  proof (cases "cmp k (key r) = 0")
    case True
    with Cons.prems show ?thesis by auto
  next
    case False
    with Cons.prems have "remove_loop cmp k rest (n + 1) = (node, m)" by simp
    from Cons.IH [OF this]
    have le: "n + 1 \<le> m"
      and len: "nat (m - (n + 1)) + length node = length rest"
      and node: "node = drop (nat (m - (n + 1))) rest"
      by simp_all
    from le have suc: "nat (m - n) = Suc (nat (m - (n + 1)))" by simp
    from le len node show ?thesis unfolding suc by simp
  qed
qed

lemma remove_loop_found:
  "fst (remove_loop cmp k c n) \<noteq> [] \<longleftrightarrow> (\<exists>e \<in> set c. cmp k (key e) = 0)"
  by (induction c arbitrary: n) auto

lemma remove_loop_first:
  "remove_loop cmp k c n = (e # rest, m) \<Longrightarrow>
     cmp k (key e) = 0 \<and> (\<forall>x \<in> set (take (nat (m - n)) c). cmp k (key x) \<noteq> 0)"
proof (induction c arbitrary: n)
  case Nil
  then show ?case by simp
next
  case (Cons r rs)
  show ?case
  proof (cases "cmp k (key r) = 0")
    case True
    with Cons.prems show ?thesis by auto
  next
    case False
    with Cons.prems have step: "remove_loop cmp k rs (n + 1) = (e # rest, m)" by simp
    from remove_loop_count [OF step] have "n + 1 \<le> m" by simp
    then have "nat (m - n) = Suc (nat (m - (n + 1)))" by simp
    with Cons.IH [OF step] False show ?thesis by simp
  qed
qed

section \<open>Evaluating the example tables\<close>

lemma bucket_index_scenario:
  "bucket_index (scenario_table c) 5 = Inr (Suc 0)"
  "bucket_index (scenario_table c) 9 = Inr (Suc 0)"
  "bucket_index (scenario_table c) 13 = Inr (Suc 0)"
  by (simp_all add: bucket_index_def scenario_table_def example_hash_def)

lemma bucket_scenario: "buckets (scenario_table c) ! Suc 0 = Some c"
  by (simp add: scenario_table_def)

lemma scenario_table_update:
  "(scenario_table c)\<lparr>buckets := (buckets (scenario_table c))[Suc 0 := Some c']\<rparr> = scenario_table c'"
  by (simp add: scenario_table_def)

lemma compare_scenario: "compare (scenario_table c) = example_compare"
  by (simp add: scenario_table_def)

section \<open>What insert does\<close>

lemma bucket_index_less: "bucket_index t k = Inr i \<Longrightarrow> i < length (buckets t)"
  by (auto simp: bucket_index_def Let_def split: if_splits)

lemma bucket_index_update:
  "bucket_index (t\<lparr>buckets := (buckets t)[i := l]\<rparr>) k = bucket_index t k"
  by (simp add: bucket_index_def Let_def)

text \<open>
  With a null argument \<^verbatim>\<open>insert\<close> returns false and leaves the table alone; with
  non-null arguments it reaches the stores through the unassigned \<^verbatim>\<open>r\<close>, on every
  table. It has no other return of false, and it never looks at the comparator or at
  the chains.
\<close>

lemma insert_entry_null:
  assumes "k = NULL \<or> v = NULL"
  shows "insert_entry (Some t) k v = Inr (False, Some t)"
  using assms by (auto simp: insert_entry_def)

lemma insert_entry_undefined:
  assumes "k \<noteq> NULL" and "v \<noteq> NULL"
  shows "insert_entry (Some t) k v = Inl UninitialisedPointer"
  using assms by (simp add: insert_entry_def)

section \<open>Entries stay in the bucket of their key\<close>

text \<open>
  \<^verbatim>\<open>replace\<close> and \<^verbatim>\<open>remove\<close> leave every entry in the bucket of its key: the one
  overwrites a value, the other unlinks a node. A newly created table has no entry.
\<close>

lemma entries_in_place_iff:
  "entries_in_place t \<longleftrightarrow>
     (\<forall>i c e. i < length (buckets t) \<longrightarrow> buckets t ! i = Some c \<longrightarrow> e \<in> set c
        \<longrightarrow> bucket_index t (key e) = Inr i)"
  by (auto simp: entries_in_place_def list_all_iff split: option.splits)

lemma entries_in_placeD:
  assumes "entries_in_place t" and "i < length (buckets t)" and "buckets t ! i = Some c"
    and "e \<in> set c"
  shows "bucket_index t (key e) = Inr i"
  using assms by (simp add: entries_in_place_iff)

lemma entries_in_place_update:
  assumes "entries_in_place t" and "i < length (buckets t)"
    and "\<And>e. e \<in> set c' \<Longrightarrow> bucket_index t (key e) = Inr i"
  shows "entries_in_place (t\<lparr>buckets := (buckets t)[i := Some c']\<rparr>)"
  unfolding entries_in_place_iff
proof (intro allI impI)
  fix j c e
  assume j: "j < length (buckets (t\<lparr>buckets := (buckets t)[i := Some c']\<rparr>))"
    and c: "buckets (t\<lparr>buckets := (buckets t)[i := Some c']\<rparr>) ! j = Some c"
    and e: "e \<in> set c"
  have "bucket_index t (key e) = Inr j"
  proof (cases "j = i")
    case True
    with c assms(2) have "c = c'" by simp
    with e assms(3) True show ?thesis by simp
  next
    case False
    with c have "buckets t ! j = Some c" by simp
    with assms(1) j e show ?thesis by (auto simp: entries_in_place_iff)
  qed
  then show "bucket_index (t\<lparr>buckets := (buckets t)[i := Some c']\<rparr>) (key e) = Inr j"
    by (simp add: bucket_index_update)
qed

lemma entries_in_place_same:
  assumes "entries_in_place t" and "i < length (buckets t)" and "buckets t ! i = Some c"
    and "key ` set c' \<subseteq> key ` set c"
  shows "entries_in_place (t\<lparr>buckets := (buckets t)[i := Some c']\<rparr>)"
proof (rule entries_in_place_update [OF assms(1,2)])
  fix e
  assume "e \<in> set c'"
  with assms(4) obtain e' where e': "e' \<in> set c" and k: "key e' = key e" by auto
  from assms(1-3) e' have "bucket_index t (key e') = Inr i"
    by (auto simp: entries_in_place_iff)
  with k show "bucket_index t (key e) = Inr i" by simp
qed

lemma replace_in_place:
  assumes "entries_in_place t" and "replace (Some t) k nv = Inr (ok, t')"
  shows "\<exists>t1. t' = Some t1 \<and> entries_in_place t1"
proof (cases "k = NULL \<or> nv = NULL")
  case True
  with assms show ?thesis by (auto simp: replace_def)
next
  case False
  with assms(2) obtain i c where i: "bucket_index t k = Inr i"
    and c: "buckets t ! i = Some c"
    and t': "t' = Some (t\<lparr>buckets := (buckets t)[i := Some (snd (replace_loop (compare t) k nv c))]\<rparr>)"
    by (auto simp: replace_def case_prod_beta split: sum.splits option.splits)
  have "key ` set (snd (replace_loop (compare t) k nv c)) = key ` set c"
    using replace_loop_keys [of "compare t" k nv c] by (metis set_map)
  with entries_in_place_same [OF assms(1) bucket_index_less [OF i] c] t'
  show ?thesis by simp
qed

lemma remove_in_place:
  assumes "entries_in_place t" and "remove (Some t) k = Inr (ok, t')"
  shows "\<exists>t1. t' = Some t1 \<and> entries_in_place t1"
proof (cases ok)
  case False
  with assms(2) have "t' = Some t"
    by (auto simp: remove_def remove_n_def case_prod_beta
        split: if_splits option.splits sum.splits)
  with assms(1) show ?thesis by simp
next
  case True
  with assms(2) obtain i c c' where i: "bucket_index t k = Inr i"
    and c: "buckets t ! i = Some c"
    and c': "remove_n (Some c) (snd (remove_loop (compare t) k c 0)) = Inr (Some c')"
    and t': "t' = Some (t\<lparr>buckets := (buckets t)[i := Some c']\<rparr>)"
    by (auto simp: remove_def remove_n_def case_prod_beta
        split: if_splits option.splits sum.splits)
  from c' have "set c' \<subseteq> set c"
    by (auto simp: remove_n_def split: if_splits dest: in_set_takeD in_set_dropD)
  then have "key ` set c' \<subseteq> key ` set c" by auto
  with entries_in_place_same [OF assms(1) bucket_index_less [OF i] c] t'
  show ?thesis by simp
qed

lemma create_table_in_place:
  "create_table n hash_fn cmp fmt ksize vsize = Some t \<Longrightarrow> entries_in_place t"
  by (auto simp: create_table_def entries_in_place_iff)

section \<open>What the operations do on a chain\<close>

text \<open>
  On a newly created table \<^verbatim>\<open>search\<close>, \<^verbatim>\<open>replace\<close> and \<^verbatim>\<open>remove\<close> with a non-null
  key fault, whatever \<open>N\<close> is: no bucket slot holds a list.
\<close>

lemma new_table_bucket:
  assumes "create_table n hash_fn cmp fmt ksize vsize = Some t" and "bucket_index t k = Inr i"
  shows "buckets t ! i = None"
  using assms bucket_index_less [OF assms(2)] by (auto simp: create_table_def)

lemma new_table_search_faults:
  assumes "create_table n hash_fn cmp fmt ksize vsize = Some t" and "k \<noteq> NULL"
  shows "\<exists>f. search (Some t) k = Some (Inl f)"
proof (cases "bucket_index t k")
  case (Inl f)
  with assms(2) show ?thesis by (simp add: search_def)
next
  case (Inr i)
  with new_table_bucket [OF assms(1) Inr] assms(2) show ?thesis by (simp add: search_def)
qed

lemma new_table_replace_faults:
  assumes "create_table n hash_fn cmp fmt ksize vsize = Some t" and "k \<noteq> NULL" and "nv \<noteq> NULL"
  shows "\<exists>f. replace (Some t) k nv = Inl f"
proof (cases "bucket_index t k")
  case (Inl f)
  with assms(2,3) show ?thesis by (simp add: replace_def)
next
  case (Inr i)
  with new_table_bucket [OF assms(1) Inr] assms(2,3) show ?thesis by (simp add: replace_def)
qed

lemma new_table_remove_faults:
  assumes "create_table n hash_fn cmp fmt ksize vsize = Some t" and "k \<noteq> NULL"
  shows "\<exists>f. remove (Some t) k = Inl f"
proof (cases "bucket_index t k")
  case (Inl f)
  with assms(2) show ?thesis by (simp add: remove_def)
next
  case (Inr i)
  with new_table_bucket [OF assms(1) Inr] assms(2) show ?thesis by (simp add: remove_def)
qed

text \<open>
  On a bucket that addresses a list, \<^verbatim>\<open>search\<close> returns when the chain has no node or
  its first node matches, and in no other case.
\<close>

lemma search_returns_iff:
  assumes "k \<noteq> NULL" and "bucket_index t k = Inr i" and "buckets t ! i = Some c"
  shows "search (Some t) k \<noteq> None \<longleftrightarrow> c = [] \<or> compare t k (key (hd c)) = 0"
proof (cases c)
  case Nil
  with assms show ?thesis by (simp add: search_def search_loop_Nil)
next
  case (Cons e rest)
  show ?thesis
  proof (cases "compare t k (key e) = 0")
    case True
    with Cons assms show ?thesis by (simp add: search_def search_loop_match)
  next
    case False
    with Cons assms show ?thesis by (simp add: search_def search_loop_stuck)
  qed
qed

lemma search_head:
  assumes "k \<noteq> NULL" and "bucket_index t k = Inr i" and "buckets t ! i = Some (e # rest)"
    and "compare t k (key e) = 0"
  shows "search (Some t) k = Some (Inr (value e))"
  using assms by (simp add: search_def search_loop_match)

text \<open>
  \<^verbatim>\<open>replace\<close> on a chain that holds an equal key returns true, and the chain keeps its
  length and its keys; on a chain without one it returns false and changes nothing.
\<close>

lemma replace_present:
  assumes "k \<noteq> NULL" and "nv \<noteq> NULL"
    and "bucket_index t k = Inr i" and "buckets t ! i = Some c"
    and "e \<in> set c" and "compare t k (key e) = 0"
  shows "\<exists>c'. replace (Some t) k nv = Inr (True, Some (t\<lparr>buckets := (buckets t)[i := Some c']\<rparr>))
           \<and> length c' = length c \<and> map key c' = map key c"
proof -
  from assms(5,6) have "fst (replace_loop (compare t) k nv c)"
    by (auto simp: replace_loop_found)
  with assms(1-4) have "replace (Some t) k nv
      = Inr (True, Some (t\<lparr>buckets := (buckets t)[i := Some (snd (replace_loop (compare t) k nv c))]\<rparr>))"
    by (simp add: replace_def case_prod_beta)
  moreover have "length (snd (replace_loop (compare t) k nv c)) = length c"
    by (rule replace_loop_length)
  moreover have "map key (snd (replace_loop (compare t) k nv c)) = map key c"
    by (rule replace_loop_keys)
  ultimately show ?thesis by blast
qed

lemma replace_absent:
  assumes "k \<noteq> NULL" and "nv \<noteq> NULL"
    and "bucket_index t k = Inr i" and "buckets t ! i = Some c"
    and "\<forall>e \<in> set c. compare t k (key e) \<noteq> 0"
  shows "replace (Some t) k nv = Inr (False, Some t)"
proof -
  from assms(5) have nf: "\<not> fst (replace_loop (compare t) k nv c)"
    by (simp add: replace_loop_found)
  then have "snd (replace_loop (compare t) k nv c) = c" by (rule replace_loop_not_found)
  moreover from assms(4) have "(buckets t)[i := Some c] = buckets t"
    by (metis list_update_id)
  ultimately show ?thesis using assms(1-4) nf
    by (simp add: replace_def case_prod_beta)
qed

text \<open>
  \<^verbatim>\<open>remove\<close> on a chain that holds an equal key returns true and the chain is one node
  shorter; on a chain without one it returns false and changes nothing.
\<close>

lemma remove_present:
  assumes "k \<noteq> NULL"
    and "bucket_index t k = Inr i" and "buckets t ! i = Some c"
    and "e \<in> set c" and "compare t k (key e) = 0"
  shows "\<exists>c'. remove (Some t) k = Inr (True, Some (t\<lparr>buckets := (buckets t)[i := Some c']\<rparr>))
           \<and> Suc (length c') = length c"
proof -
  obtain node m where loop: "remove_loop (compare t) k c 0 = (node, m)"
    by (cases "remove_loop (compare t) k c 0") simp
  from assms(4,5) remove_loop_found [of "compare t" k c 0] loop have node: "node \<noteq> []"
    by auto
  from remove_loop_count [OF loop] node have m: "0 \<le> m" "nat m < length c"
    by auto
  from assms(1-3) loop node m
  have "remove (Some t) k
      = Inr (True, Some (t\<lparr>buckets := (buckets t)[i := Some (take (nat m) c @ drop (Suc (nat m)) c)]\<rparr>))"
    by (simp add: remove_def remove_n_def)
  moreover from m have "Suc (length (take (nat m) c @ drop (Suc (nat m)) c)) = length c"
    by simp
  ultimately show ?thesis by blast
qed

lemma remove_absent:
  assumes "k \<noteq> NULL"
    and "bucket_index t k = Inr i" and "buckets t ! i = Some c"
    and "\<forall>e \<in> set c. compare t k (key e) \<noteq> 0"
  shows "remove (Some t) k = Inr (False, Some t)"
proof -
  from assms(4) remove_loop_found [of "compare t" k c 0]
  have "fst (remove_loop (compare t) k c 0) = []" by auto
  with assms(1-3) show ?thesis by (simp add: remove_def case_prod_beta)
qed

section \<open>Claims\<close>

text \<open>
  C2. \<^verbatim>\<open>search\<close> is to return after at most as many comparisons as the chain has
  nodes. With the one entry of key 5 in bucket 1, the search for key 13, which falls
  into the same bucket and matches nothing, does not return.
\<close>

theorem search_unmatched_key_never_returns:
  "search (Some (scenario_table [\<lparr>key = 5, value = 101\<rparr>])) 13 = None"
  by (simp add: search_def bucket_index_scenario bucket_scenario compare_scenario
      example_compare_def search_loop_stuck)

text \<open>
  C3. On a newly created table \<^verbatim>\<open>search\<close>, \<^verbatim>\<open>replace\<close> and \<^verbatim>\<open>remove\<close> are to report
  "not found". Every bucket of such a table is a NULL list pointer, and each of the
  three reads \<^verbatim>\<open>->first\<close> through it.
\<close>

theorem new_table_operations_fault:
  "search (create_table 4 example_hash example_compare example_formatter 4 4) 5
     = Some (Inl NullDereference)
   \<and> replace (create_table 4 example_hash example_compare example_formatter 4 4) 5 101
     = Inl NullDereference
   \<and> remove (create_table 4 example_hash example_compare example_formatter 4 4) 5
     = Inl NullDereference"
  by (simp add: search_def replace_def remove_def create_table_def bucket_index_def
      example_hash_def)

text \<open>
  C4. \<^verbatim>\<open>insert\<close> is to create a new entry that holds copies of the key and value
  bytes, in the chain of bucket \<open>hash(key) mod N\<close>. With key address 5 and value address
  101 the call creates no entry at all: before anything is allocated or linked it
  stores through the unassigned \<^verbatim>\<open>r\<close>, on a newly created table as on a table whose
  buckets address lists.
\<close>

theorem insert_creates_no_entry:
  "insert_entry (create_table 4 example_hash example_compare example_formatter 4 4) 5 101
     = Inl UninitialisedPointer
   \<and> insert_entry (Some (scenario_table [])) 5 101 = Inl UninitialisedPointer"
  by (simp add: insert_entry_undefined create_table_def)

text \<open>
  C5. For a key that is already in the target chain \<^verbatim>\<open>insert\<close> is to fail with
  \<open>DuplicateKey\<close> or to do what \<^verbatim>\<open>replace\<close> does. With key 5 in bucket 1, \<^verbatim>\<open>replace\<close> of
  key 5 returns true and leaves the one entry with the new value; \<^verbatim>\<open>insert\<close> of key 5
  does neither that nor return false: it stores through the unassigned \<^verbatim>\<open>r\<close>.
\<close>

theorem insert_of_present_key:
  "insert_entry (Some (scenario_table [\<lparr>key = 5, value = 101\<rparr>])) 5 103
     = Inl UninitialisedPointer
   \<and> replace (Some (scenario_table [\<lparr>key = 5, value = 101\<rparr>])) 5 103
     = Inr (True, Some (scenario_table [\<lparr>key = 5, value = 103\<rparr>]))"
  by (simp add: insert_entry_undefined replace_def bucket_index_scenario bucket_scenario
      compare_scenario scenario_table_update example_compare_def)

text \<open>
  C6. In the scenario of the specification bucket 1 holds key 9 in front of key 5.
  \<^verbatim>\<open>replace\<close> of key 5 returns true and overwrites the value of the second node, the
  chain keeping its two nodes and their keys; the \<^verbatim>\<open>search\<close> for key 5 that follows
  does not return the new value: it does not return.
\<close>

theorem replace_then_search_never_returns:
  "replace (Some (scenario_table [\<lparr>key = 9, value = 102\<rparr>, \<lparr>key = 5, value = 101\<rparr>])) 5 103
     = Inr (True, Some (scenario_table [\<lparr>key = 9, value = 102\<rparr>, \<lparr>key = 5, value = 103\<rparr>]))
   \<and> search (Some (scenario_table [\<lparr>key = 9, value = 102\<rparr>, \<lparr>key = 5, value = 103\<rparr>])) 5
     = None"
  by (simp add: replace_def search_def bucket_index_scenario bucket_scenario compare_scenario
      scenario_table_update example_compare_def search_loop_stuck)

text \<open>
  C7. In the same scenario \<^verbatim>\<open>remove\<close> of key 9 returns true and leaves the chain one
  node shorter. The \<^verbatim>\<open>search\<close> for key 9 that follows does not report "not found": it
  does not return. The \<^verbatim>\<open>insert\<close> of key 9 that follows faults on its unassigned \<^verbatim>\<open>r\<close>.
\<close>

theorem remove_then_search_never_returns:
  "remove (Some (scenario_table [\<lparr>key = 9, value = 102\<rparr>, \<lparr>key = 5, value = 101\<rparr>])) 9
     = Inr (True, Some (scenario_table [\<lparr>key = 5, value = 101\<rparr>]))
   \<and> search (Some (scenario_table [\<lparr>key = 5, value = 101\<rparr>])) 9 = None
   \<and> insert_entry (Some (scenario_table [\<lparr>key = 5, value = 101\<rparr>])) 9 102
     = Inl UninitialisedPointer"
  by (simp add: remove_def remove_n_def search_def insert_entry_undefined bucket_index_scenario
      bucket_scenario compare_scenario scenario_table_update example_compare_def
      search_loop_stuck)

text \<open>
  C8 (as amended). \<^verbatim>\<open>create_table\<close> checks nothing and has no failure return: for
  every \<open>N\<close> it returns a table that records \<open>N\<close> and whose buckets are all empty (NULL
  list pointers); there are exactly \<open>N\<close> of them when \<open>N \<ge> 1\<close> and none when \<open>N \<le> 0\<close>.
\<close>

theorem create_table_any_N:
  "\<exists>t. create_table n hash_fn cmp fmt ksize vsize = Some t
       \<and> N t = n
       \<and> length (buckets t) = nat n
       \<and> list_all (\<lambda>b. b = None) (buckets t)"
  by (simp add: create_table_def list_all_iff)

text \<open>The amended C8 at \<open>N = 4\<close>.\<close>

theorem create_table_any_N_witness:
  "\<exists>t. create_table 4 example_hash example_compare example_formatter 4 4 = Some t
       \<and> N t = 4
       \<and> length (buckets t) = 4
       \<and> list_all (\<lambda>b. b = None) (buckets t)"
  using create_table_any_N [of 4 example_hash example_compare example_formatter 4 4]
  by simp

text \<open>
  C8 as stated fails: with \<open>N = 0\<close> and with \<open>N = -3\<close> the call does not fail but
  returns a table without buckets.
\<close>

theorem create_table_nonpositive_N:
  "create_table 0 example_hash example_compare example_formatter 4 4
     = Some \<lparr> N = 0, buckets = [], hash_function = example_hash, compare = example_compare,
              record_formatter = example_formatter, key_size = 4, value_size = 4 \<rparr>
   \<and> create_table (- 3) example_hash example_compare example_formatter 4 4
     = Some \<lparr> N = - 3, buckets = [], hash_function = example_hash, compare = example_compare,
              record_formatter = example_formatter, key_size = 4, value_size = 4 \<rparr>"
  by (simp add: create_table_def)

text \<open>
  C10. With key 9 inserted last and two entries of key 5 behind it, \<^verbatim>\<open>remove\<close> of key
  5 unlinks the more recent of the two and leaves the earlier one in place, but
  \<^verbatim>\<open>search\<close> for key 5 does not return the more recent entry's value: it does not
  return.
\<close>

theorem search_behind_head_never_returns:
  "search (Some (scenario_table
       [\<lparr>key = 9, value = 102\<rparr>, \<lparr>key = 5, value = 103\<rparr>, \<lparr>key = 5, value = 101\<rparr>])) 5
     = None
   \<and> remove (Some (scenario_table
       [\<lparr>key = 9, value = 102\<rparr>, \<lparr>key = 5, value = 103\<rparr>, \<lparr>key = 5, value = 101\<rparr>])) 5
     = Inr (True, Some (scenario_table [\<lparr>key = 9, value = 102\<rparr>, \<lparr>key = 5, value = 101\<rparr>]))"
  by (simp add: search_def remove_def remove_n_def bucket_index_scenario bucket_scenario
      compare_scenario scenario_table_update example_compare_def search_loop_stuck)

end
